theory Spec2Isabelle
  imports Main "HOL-Library.AList" "HOL-Library.Sublist"
begin

section \<open>The medication reminder (med_reminder.py)\<close>

text \<open>
  A shallow embedding of the class \<open>MedReminder\<close>: the JSON log on disk, the completion
  check, the confirmation dialog and the reminder loop. Exceptions are values of a sum
  type, the disk and the clock are an explicit \<open>world\<close>, and everything the program
  shows, plays or prints is an event of a trace.
\<close>

subsection \<open>Python values as produced by \<open>json.load\<close>\<close>

text \<open>
  A dictionary is an association list in insertion order; a Python \<open>dict\<close> never holds a
  key twice (see \<open>is_store\<close> below). No function modelled here looks inside a number;
  a float is a mantissa and an exponent.
\<close>

datatype pyval =
    PNone
  | PBool bool
  | PInt int
  | PFloat int int
  | PStr string
  | PList "pyval list"
  | PDict "(string \<times> pyval) list"

datatype error = JSONDecodeError | TypeError | AttributeError | KeyError

text \<open>\<open>key in v\<close> for a string \<open>key\<close>: key membership in a dict, element membership in
  a list, substring test in a string; any other operand is not iterable.\<close>

fun py_contains :: "pyval \<Rightarrow> string \<Rightarrow> error + bool" where
  "py_contains (PDict kvs) k = Inr (k \<in> fst ` set kvs)"
| "py_contains (PList xs) k = Inr (PStr k \<in> set xs)"
| "py_contains (PStr s) k = Inr (sublist k s)"
| "py_contains _ k = Inl TypeError"

text \<open>\<open>v[key]\<close> for a string \<open>key\<close>: only a dict can be subscripted by a string.\<close>

fun py_getitem :: "pyval \<Rightarrow> string \<Rightarrow> error + pyval" where
  "py_getitem (PDict kvs) k = (case map_of kvs k of None \<Rightarrow> Inl KeyError | Some v \<Rightarrow> Inr v)"
| "py_getitem _ k = Inl TypeError"

text \<open>\<open>v[key] = x\<close> for a string \<open>key\<close>: an existing key keeps its place, a new key goes
  to the end.\<close>

fun py_setitem :: "pyval \<Rightarrow> string \<Rightarrow> pyval \<Rightarrow> error + pyval" where
  "py_setitem (PDict kvs) k x = Inr (PDict (AList.update k x kvs))"
| "py_setitem _ k x = Inl TypeError"

text \<open>\<open>v.get(key, default)\<close>: only a dict has the method.\<close>

fun py_get :: "pyval \<Rightarrow> string \<Rightarrow> pyval \<Rightarrow> error + pyval" where
  "py_get (PDict kvs) k dflt = (case map_of kvs k of None \<Rightarrow> Inr dflt | Some v \<Rightarrow> Inr v)"
| "py_get _ k dflt = Inl AttributeError"

fun py_len :: "pyval \<Rightarrow> error + nat" where
  "py_len (PList xs) = Inr (length xs)"
| "py_len (PStr s) = Inr (length s)"
| "py_len (PDict kvs) = Inr (length kvs)"
| "py_len _ = Inl TypeError"

subsection \<open>The world: the log file and the clock\<close>

text \<open>
  What \<open>open(log_file)\<close> followed by \<open>json.load\<close> meets: no file, a file that does not
  parse, or a file holding a JSON value. The file is taken to be readable and writable.
\<close>

datatype file_state = Absent | Corrupt | Holds pyval

text \<open>\<open>clock_day\<close> is \<open>datetime.now().strftime("%Y-%m-%d")\<close>, \<open>clock_iso\<close> is
  \<open>datetime.now().isoformat()\<close>; the clock does not move inside one method call.\<close>

record world =
  log_disk :: file_state
  clock_day :: string
  clock_iso :: string

subsection \<open>The object\<close>

text \<open>An attribute the constructor may leave undefined is an option. The titles are
  given without their leading pictograph.\<close>

record med_reminder =
  reminder_type :: string
  medicines :: "string list option"
  reminder_title :: "string option"
  reminder_count :: nat
  max_reminders :: nat

definition init :: "string \<Rightarrow> med_reminder" where
  "init rt =
     \<lparr> reminder_type = rt,
       medicines =
         (if rt = ''morning'' then Some [''Elvanse 20mg'', ''Escitalopram 5mg'', ''Dexamfetamine 5mg'']
          else if rt = ''afternoon'' then Some [''Dexamfetamine 5mg (afternoon dose)'']
          else None),
       reminder_title =
         (if rt = ''morning'' then Some ''MORNING MEDICATION TIME!''
          else if rt = ''afternoon'' then Some ''AFTERNOON MEDICATION TIME!''
          else None),
       reminder_count = 0,
       max_reminders = 10 \<rparr>"

definition get_today_key :: "world \<Rightarrow> string" where
  "get_today_key w = clock_day w"

subsection \<open>The log store\<close>

definition load_log :: "world \<Rightarrow> error + pyval" where
  "load_log w =
     (case log_disk w of
        Absent \<Rightarrow> Inr (PDict [])
      | Corrupt \<Rightarrow> Inl JSONDecodeError
      | Holds v \<Rightarrow> Inr v)"

definition new_entry :: "med_reminder \<Rightarrow> string list \<Rightarrow> world \<Rightarrow> pyval" where
  "new_entry self taken_meds w =
     PDict [(''medicines'', PList (map PStr taken_meds)),
            (''time_taken'', PStr (clock_iso w)),
            (''reminder_count'', PInt (int (reminder_count self)))]"

text \<open>
  \<open>log[today_key][self.reminder_type] = {...}\<close> changes the inner dictionary in place;
  here the changed inner dictionary is stored back under \<open>today_key\<close>.
\<close>

definition save_log :: "med_reminder \<Rightarrow> string list \<Rightarrow> world \<Rightarrow> error + world" where
  "save_log self taken_meds w =
     (case load_log w of Inl e \<Rightarrow> Inl e | Inr log \<Rightarrow>
      let today_key = get_today_key w in
      (case py_contains log today_key of Inl e \<Rightarrow> Inl e | Inr present \<Rightarrow>
      (case (if \<not> present then py_setitem log today_key (PDict []) else Inr log) of
         Inl e \<Rightarrow> Inl e | Inr log1 \<Rightarrow>
      (case py_getitem log1 today_key of Inl e \<Rightarrow> Inl e | Inr inner \<Rightarrow>
      (case py_setitem inner (reminder_type self) (new_entry self taken_meds w) of
         Inl e \<Rightarrow> Inl e | Inr inner1 \<Rightarrow>
      (case py_setitem log1 today_key inner1 of Inl e \<Rightarrow> Inl e | Inr log2 \<Rightarrow>
       Inr (w\<lparr>log_disk := Holds log2\<rparr>)))))))"

text \<open>The conjunction is evaluated left to right and stops at the first false operand;
  \<open>self.medicines\<close> is read last.\<close>

definition already_taken_today :: "med_reminder \<Rightarrow> world \<Rightarrow> error + bool" where
  "already_taken_today self w =
     (case load_log w of Inl e \<Rightarrow> Inl e | Inr log \<Rightarrow>
      let today = get_today_key w in
      (case py_contains log today of Inl e \<Rightarrow> Inl e | Inr b1 \<Rightarrow>
       if \<not> b1 then Inr False else
      (case py_getitem log today of Inl e \<Rightarrow> Inl e | Inr day \<Rightarrow>
      (case py_contains day (reminder_type self) of Inl e \<Rightarrow> Inl e | Inr b2 \<Rightarrow>
       if \<not> b2 then Inr False else
      (case py_getitem day (reminder_type self) of Inl e \<Rightarrow> Inl e | Inr entry \<Rightarrow>
      (case py_get entry ''medicines'' (PList []) of Inl e \<Rightarrow> Inl e | Inr meds \<Rightarrow>
      (case py_len meds of Inl e \<Rightarrow> Inl e | Inr n \<Rightarrow>
      (case medicines self of None \<Rightarrow> Inl AttributeError | Some required \<Rightarrow>
       Inr (n = length required)))))))))"

subsection \<open>Events\<close>

datatype urgency = Normal | Critical

datatype colour = Red | Orange | Lightblue

datatype console =
    AlreadyTaken | Starting | WereTaken | ReminderNo nat | TakenOk | Waiting nat | MaxReached

text \<open>
  \<open>Notification u t ms\<close>: the desktop notification of urgency \<open>u\<close>, shown \<open>t\<close> ms, listing
  \<open>ms\<close> (sent by notify-send, or printed when that is unavailable). \<open>Paplay s\<close> and
  \<open>Aplay s\<close>: one run of the player on the sound file \<open>s\<close>. \<open>ShortSleep\<close>:
  \<open>time.sleep(0.5)\<close>. \<open>Bell\<close>: the terminal bells printed when no sound could be played.
  \<open>Sleep n\<close>: \<open>time.sleep(n)\<close>, the wait between reminders.
\<close>

datatype event =
    Print console
  | Notification urgency nat "string list"
  | Paplay string
  | Aplay string
  | ShortSleep
  | Bell
  | DialogOpened colour nat
  | InfoBox
  | WarningBox nat
  | CallbackError error
  | Sleep nat

text \<open>Every event is recorded with the world in which it starts.\<close>

type_synonym trace = "(world \<times> event) list"

subsection \<open>The environment of one attempt\<close>

text \<open>
  The disk and the clock move on only while the program is blocked: in notify-send, in a
  run of a sound player, in a sleep, in the dialog.

  What reaches the dialog while \<open>mainloop\<close> runs: the user ticks or unticks box \<open>i\<close>,
  presses one of the two buttons or closes the window; \<open>WorldBecomes\<close> is the disk and
  the clock moving on meanwhile.
\<close>

datatype user_action = Toggle nat | ClickTaken | ClickSnooze | CloseWindow | WorldBecomes world

text \<open>
  Round \<open>i\<close> of the environment, for attempt \<open>i\<close>: the world found when the notification
  call returns; which sound files exist and which players are installed; the world
  found when the \<open>k\<close>-th blocking call of the alarm (a player run or a short sleep,
  counted from 0) returns; what the user does with the dialog; and the world found when
  the wait after the attempt ends.
\<close>

record round =
  after_notify :: world
  sound_exists :: "string \<Rightarrow> bool"
  paplay_found :: bool
  aplay_found :: bool
  during_alarm :: "nat \<Rightarrow> world"
  actions :: "user_action list"
  after_wait :: world

subsection \<open>Alerts\<close>

text \<open>The message is put together from \<open>self.medicines\<close> before notify-send is run.\<close>

definition show_desktop_notification :: "med_reminder \<Rightarrow> urgency \<Rightarrow> world \<Rightarrow> error + trace" where
  "show_desktop_notification self u w =
     (case medicines self of
        None \<Rightarrow> Inl AttributeError
      | Some meds \<Rightarrow> Inr [(w, Notification u (if u = Critical then 30000 else 10000) meds)])"

definition sounds :: "string list" where
  "sounds =
     [''/usr/share/sounds/freedesktop/stereo/complete.oga'',
      ''/usr/share/sounds/freedesktop/stereo/dialog-information.oga'',
      ''/usr/share/sounds/sound-icons/piano-3.wav'',
      ''/usr/share/sounds/sound-icons/chord-7.wav'']"

text \<open>
  \<open>for _ in range(n)\<close>: run paplay, then sleep half a second. \<open>k\<close> is the number of
  blocking calls the alarm has made so far, \<open>w\<close> the world in which the next one starts.
\<close>

fun paplay_times :: "nat \<Rightarrow> string \<Rightarrow> round \<Rightarrow> nat \<Rightarrow> world \<Rightarrow> trace \<times> world" where
  "paplay_times 0 s r k w = ([], w)"
| "paplay_times (Suc n) s r k w =
     (case paplay_times n s r (k + 2) (during_alarm r (k + 1)) of
        (tr, w') \<Rightarrow> ((w, Paplay s) # (during_alarm r k, ShortSleep) # tr, w'))"

text \<open>
  The loop over the candidate sounds. A missing paplay raises at its first run, and the
  handler tries aplay once; a missing aplay goes on to the next sound. When the loop
  ends without a return, the bell is printed.
\<close>

fun try_sounds :: "round \<Rightarrow> world \<Rightarrow> string list \<Rightarrow> trace \<times> world" where
  "try_sounds r w [] = ([(w, Bell)], w)"
| "try_sounds r w (s # ss) =
     (if sound_exists r s then
        (if paplay_found r then paplay_times 3 s r 0 w
         else if aplay_found r then ([(w, Aplay s)], during_alarm r 0)
         else try_sounds r w ss)
      else try_sounds r w ss)"

definition play_alarm_sound :: "round \<Rightarrow> world \<Rightarrow> trace \<times> world" where
  "play_alarm_sound r w = try_sounds r w sounds"

text \<open>Lines 192-200: the notification and the sound of one round, and the world in
  which they are over.\<close>

definition alert :: "med_reminder \<Rightarrow> round \<Rightarrow> world \<Rightarrow> error + trace \<times> world" where
  "alert self r w =
     (if reminder_count self = 0 then
        (case show_desktop_notification self Normal w of
           Inl e \<Rightarrow> Inl e | Inr n \<Rightarrow> Inr (n, after_notify r))
      else if reminder_count self < 3 then
        (case show_desktop_notification self Normal w of
           Inl e \<Rightarrow> Inl e
         | Inr n \<Rightarrow>
             (case play_alarm_sound r (after_notify r) of (a, w') \<Rightarrow> Inr (n @ a, w')))
      else
        (case show_desktop_notification self Critical w of
           Inl e \<Rightarrow> Inl e
         | Inr n \<Rightarrow>
             (case play_alarm_sound r (after_notify r) of (a, w') \<Rightarrow> Inr (n @ a, w'))))"

text \<open>Lines 210-215, on the counter after its increment.\<close>

definition wait_time :: "nat \<Rightarrow> nat" where
  "wait_time c = (if c < 3 then 300 else if c < 6 then 180 else 60)"

subsection \<open>The confirmation dialog\<close>

record gui =
  med_vars :: "bool list"
  completed :: bool
  destroyed :: bool
  gworld :: world
  shown :: trace

text \<open>
  The callback of the button "Taken All". An exception raised inside a Tk callback is
  reported by Tk and the event loop goes on.
\<close>

definition on_taken :: "med_reminder \<Rightarrow> gui \<Rightarrow> gui" where
  "on_taken self g =
     (case medicines self of
        None \<Rightarrow> g\<lparr>shown := shown g @ [(gworld g, CallbackError AttributeError)]\<rparr>
      | Some meds \<Rightarrow>
         let selected = [meds ! i. i \<leftarrow> [0..<length (med_vars g)], med_vars g ! i] in
         if length selected = length meds then
           (case save_log self selected (gworld g) of
              Inl e \<Rightarrow> g\<lparr>shown := shown g @ [(gworld g, CallbackError e)]\<rparr>
            | Inr w' \<Rightarrow>
                g\<lparr>completed := True, destroyed := True, gworld := w',
                  shown := shown g @ [(w', InfoBox)]\<rparr>)
         else g\<lparr>shown := shown g @ [(gworld g, WarningBox (length meds))]\<rparr>)"

definition on_snooze :: "gui \<Rightarrow> gui" where
  "on_snooze g = g\<lparr>destroyed := True\<rparr>"

fun handle :: "med_reminder \<Rightarrow> gui \<Rightarrow> user_action \<Rightarrow> gui" where
  "handle self g (Toggle i) =
     (if i < length (med_vars g) then g\<lparr>med_vars := (med_vars g)[i := \<not> med_vars g ! i]\<rparr> else g)"
| "handle self g ClickTaken = on_taken self g"
| "handle self g ClickSnooze = on_snooze g"
| "handle self g CloseWindow = g\<lparr>destroyed := True\<rparr>"
| "handle self g (WorldBecomes w) = g\<lparr>gworld := w\<rparr>"

text \<open>\<open>root.mainloop()\<close> returns once the window is destroyed; with no further input
  and the window open it does not return (\<open>None\<close>).\<close>

fun mainloop :: "med_reminder \<Rightarrow> gui \<Rightarrow> user_action list \<Rightarrow> gui option" where
  "mainloop self g [] = None"
| "mainloop self g (a # as) =
     (let g' = handle self g a in if destroyed g' then Some g' else mainloop self g' as)"

definition show_gui_reminder ::
  "med_reminder \<Rightarrow> world \<Rightarrow> user_action list \<Rightarrow> ((error + bool) \<times> world \<times> trace) option" where
  "show_gui_reminder self w acts =
     (let bg = (if reminder_count self > 3 then Red
                else if reminder_count self > 1 then Orange else Lightblue) in
      case reminder_title self of
        None \<Rightarrow> Some (Inl AttributeError, w, [])
      | Some title \<Rightarrow>
     (case medicines self of
        None \<Rightarrow> Some (Inl AttributeError, w, [])
      | Some meds \<Rightarrow>
     (case mainloop self
             \<lparr> med_vars = replicate (length meds) False, completed = False, destroyed = False,
               gworld = w, shown = [(w, DialogOpened bg (reminder_count self + 1))] \<rparr> acts of
        None \<Rightarrow> None
      | Some g \<Rightarrow> Some (Inr (completed g), gworld g, shown g))))"

subsection \<open>The reminder cycle\<close>

datatype status = Returned | Raised error | Blocked

type_synonym run = "status \<times> med_reminder \<times> world \<times> trace"

definition then_run :: "trace \<Rightarrow> run \<Rightarrow> run" where
  "then_run tr r = (case r of (s, self, w, tr') \<Rightarrow> (s, self, w, tr @ tr'))"

function reminder_loop :: "med_reminder \<Rightarrow> world \<Rightarrow> (nat \<Rightarrow> round) \<Rightarrow> run" where
  "reminder_loop self w env =
     (if reminder_count self < max_reminders self then
        (case already_taken_today self w of
           Inl e \<Rightarrow> (Raised e, self, w, [])
         | Inr True \<Rightarrow> (Returned, self, w, [(w, Print WereTaken)])
         | Inr False \<Rightarrow>
        (let pre = [(w, Print (ReminderNo (reminder_count self + 1)))] in
         case alert self (env (reminder_count self)) w of
           Inl e \<Rightarrow> (Raised e, self, w, pre)
         | Inr (al, w0) \<Rightarrow>
        (case show_gui_reminder self w0 (actions (env (reminder_count self))) of
           None \<Rightarrow> (Blocked, self, w0, pre @ al)
         | Some (Inl e, w1, g) \<Rightarrow> (Raised e, self, w1, pre @ al @ g)
         | Some (Inr True, w1, g) \<Rightarrow> (Returned, self, w1, pre @ al @ g @ [(w1, Print TakenOk)])
         | Some (Inr False, w1, g) \<Rightarrow>
            then_run
              (pre @ al @ g @
                 [(w1, Print (Waiting (wait_time (reminder_count self + 1) div 60))),
                  (w1, Sleep (wait_time (reminder_count self + 1)))])
              (reminder_loop (self\<lparr>reminder_count := reminder_count self + 1\<rparr>)
                 (after_wait (env (reminder_count self))) env))))
      else (Returned, self, w, [(w, Print MaxReached)]))"
  by pat_completeness auto
termination
  by (relation "measure (\<lambda>(self, w, env). max_reminders self - reminder_count self)") auto

definition run_reminder_cycle :: "med_reminder \<Rightarrow> world \<Rightarrow> (nat \<Rightarrow> round) \<Rightarrow> run" where
  "run_reminder_cycle self w env =
     (case already_taken_today self w of
        Inl e \<Rightarrow> (Raised e, self, w, [])
      | Inr True \<Rightarrow> (Returned, self, w, [(w, Print AlreadyTaken)])
      | Inr False \<Rightarrow> then_run [(w, Print Starting)] (reminder_loop self w env))"

text \<open>The script's entry point: the slot is the first command-line argument, or
  \<open>morning\<close>.\<close>

definition main :: "string list \<Rightarrow> world \<Rightarrow> (nat \<Rightarrow> round) \<Rightarrow> run" where
  "main argv w env =
     run_reminder_cycle (init (if length argv > 1 then argv ! 1 else ''morning'')) w env"

subsection \<open>Reading a run\<close>

definition status_of :: "run \<Rightarrow> status" where
  "status_of r = fst r"

definition self_of :: "run \<Rightarrow> med_reminder" where
  "self_of r = fst (snd r)"

definition world_of :: "run \<Rightarrow> world" where
  "world_of r = fst (snd (snd r))"

definition trace_of :: "run \<Rightarrow> trace" where
  "trace_of r = snd (snd (snd r))"

definition events_of :: "run \<Rightarrow> event list" where
  "events_of r = map snd (trace_of r)"

fun slept :: "event \<Rightarrow> nat option" where
  "slept (Sleep n) = Some n"
| "slept _ = None"

definition waits_of :: "run \<Rightarrow> nat list" where
  "waits_of r = List.map_filter slept (events_of r)"

text \<open>A sound of the alarm; an alert is a desktop notification, a sound of the alarm or
  the blocking dialog.\<close>

fun is_sound :: "event \<Rightarrow> bool" where
  "is_sound (Paplay s) = True"
| "is_sound (Aplay s) = True"
| "is_sound Bell = True"
| "is_sound _ = False"

fun is_alert :: "event \<Rightarrow> bool" where
  "is_alert (Notification u t ms) = True"
| "is_alert (Paplay s) = True"
| "is_alert (Aplay s) = True"
| "is_alert Bell = True"
| "is_alert (DialogOpened c n) = True"
| "is_alert _ = False"

fun is_notification :: "event \<Rightarrow> bool" where
  "is_notification (Notification u t ms) = True"
| "is_notification _ = False"

fun is_dialog :: "event \<Rightarrow> bool" where
  "is_dialog (DialogOpened c n) = True"
| "is_dialog _ = False"

subsection \<open>Reading the log store\<close>

text \<open>The days of the stored log, and the slots stored under a day, when the log is a
  dictionary of dictionaries; the entry stored for a day and a slot.\<close>

definition days_of :: "world \<Rightarrow> (string \<times> pyval) list" where
  "days_of w = (case load_log w of Inr (PDict days) \<Rightarrow> days | _ \<Rightarrow> [])"

definition slots_of :: "world \<Rightarrow> string \<Rightarrow> (string \<times> pyval) list" where
  "slots_of w d = (case map_of (days_of w) d of Some (PDict slots) \<Rightarrow> slots | _ \<Rightarrow> [])"

definition disk_entry :: "world \<Rightarrow> string \<Rightarrow> string \<Rightarrow> pyval option" where
  "disk_entry w d s = map_of (slots_of w d) s"

text \<open>The number of confirmed items of an entry; an entry without the field
  \<open>medicines\<close> has none.\<close>

definition confirmed_count :: "pyval \<Rightarrow> nat option" where
  "confirmed_count e =
     (case e of
        PDict fs \<Rightarrow>
          (case map_of fs ''medicines'' of
             None \<Rightarrow> Some 0
           | Some (PList xs) \<Rightarrow> Some (length xs)
           | Some _ \<Rightarrow> None)
      | _ \<Rightarrow> None)"

text \<open>
  Completion as the specification words it: a LogEntry exists for the day and the slot
  whose confirmed-item count equals the required count.
\<close>

definition isComplete :: "world \<Rightarrow> string \<Rightarrow> string \<Rightarrow> nat \<Rightarrow> bool" where
  "isComplete w d s n =
     (case disk_entry w d s of None \<Rightarrow> False | Some e \<Rightarrow> confirmed_count e = Some n)"

text \<open>
  A LogStore: a dictionary from day keys to dictionaries from slot keys to entries, an
  entry being a dictionary whose field \<open>medicines\<close>, when present, is a list; no
  dictionary holds a key twice.
\<close>

fun is_entry :: "pyval \<Rightarrow> bool" where
  "is_entry (PDict fs) =
     (distinct (map fst fs) \<and>
      (case map_of fs ''medicines'' of None \<Rightarrow> True | Some (PList xs) \<Rightarrow> True | Some _ \<Rightarrow> False))"
| "is_entry _ = False"

fun is_day :: "pyval \<Rightarrow> bool" where
  "is_day (PDict slots) = (distinct (map fst slots) \<and> list_all is_entry (map snd slots))"
| "is_day _ = False"

fun is_store :: "pyval \<Rightarrow> bool" where
  "is_store (PDict days) = (distinct (map fst days) \<and> list_all is_day (map snd days))"
| "is_store _ = False"

definition store_on_disk :: "world \<Rightarrow> bool" where
  "store_on_disk w =
     (case log_disk w of Absent \<Rightarrow> True | Corrupt \<Rightarrow> False | Holds v \<Rightarrow> is_store v)"

text \<open>The day keys of the stored log and the slot keys stored under a day, in order and
  with repetitions if there were any.\<close>

definition day_keys :: "world \<Rightarrow> string list" where
  "day_keys w = map fst (days_of w)"

definition slot_keys :: "world \<Rightarrow> string \<Rightarrow> string list" where
  "slot_keys w d = map fst (slots_of w d)"

text \<open>The world \<open>save_log\<close> leaves when the disk holds a LogStore (lemma
  \<open>save_log_saved\<close>).\<close>

definition saved :: "med_reminder \<Rightarrow> string list \<Rightarrow> world \<Rightarrow> world" where
  "saved self taken w = w\<lparr>log_disk := Holds (PDict (AList.update (clock_day w)
            (PDict (AList.update (reminder_type self) (new_entry self taken w)
                      (slots_of w (clock_day w))))
            (days_of w)))\<rparr>"

subsection \<open>Sample inputs\<close>

definition new_year :: world where
  "new_year =
     \<lparr> log_disk = Absent, clock_day = ''2024-01-01'', clock_iso = ''2024-01-01T08:00:00'' \<rparr>"

definition sample_log :: pyval where
  "sample_log =
     PDict [(''2023-12-31'',
               PDict [(''morning'',
                  PDict [(''medicines'', PList [PStr ''Elvanse 20mg'', PStr ''Escitalopram 5mg'',
                                                PStr ''Dexamfetamine 5mg'']),
                         (''time_taken'', PStr ''2023-12-31T08:05:00''),
                         (''reminder_count'', PInt 1)])]),
            (''2024-01-01'',
               PDict [(''morning'',
                  PDict [(''medicines'', PList [PStr ''aspirin'', PStr ''aspirin'', PInt 7])]),
                      (''afternoon'',
                  PDict [(''time_taken'', PStr ''2024-01-01T14:00:00'')])])]"

definition sample_world :: world where
  "sample_world = new_year\<lparr>log_disk := Holds sample_log\<rparr>"

text \<open>A round in which nothing changes outside, no sound can be played and the user
  snoozes; the same with the first sound file present and paplay installed.\<close>

definition quiet_round :: round where
  "quiet_round =
     \<lparr> after_notify = new_year, sound_exists = (\<lambda>s. False), paplay_found = False,
       aplay_found = False, during_alarm = (\<lambda>k. new_year), actions = [ClickSnooze],
       after_wait = new_year \<rparr>"

definition noisy_round :: round where
  "noisy_round =
     quiet_round\<lparr> sound_exists := (\<lambda>s. s = ''/usr/share/sounds/freedesktop/stereo/complete.oga''),
                  paplay_found := True \<rparr>"

definition always_snooze :: "nat \<Rightarrow> round" where
  "always_snooze i = quiet_round"



section \<open>Properties\<close>

declare reminder_loop.simps [simp del]

lemmas run_defs = run_reminder_cycle_def already_taken_today_def load_log_def
  get_today_key_def alert_def show_desktop_notification_def play_alarm_sound_def sounds_def
  show_gui_reminder_def on_snooze_def then_run_def wait_time_def numeral_3_eq_3

lemmas read_defs = status_of_def self_of_def world_of_def trace_of_def events_of_def
  waits_of_def

subsection \<open>Loading the log\<close>

text \<open>
  C2 (as amended). \<open>load_log\<close> returns the empty mapping when the log file is absent. A
  file that does not parse is not treated the same way: only the missing file is caught,
  so the decode error leaves \<open>load_log\<close>, and with it the completion check, \<open>save_log\<close>
  and the whole reminder cycle, which then stops before printing or alerting.
\<close>

theorem load_log_absent_or_corrupt:
  "load_log (w\<lparr>log_disk := Absent\<rparr>) = Inr (PDict [])
   \<and> load_log (w\<lparr>log_disk := Corrupt\<rparr>) = Inl JSONDecodeError
   \<and> already_taken_today self (w\<lparr>log_disk := Corrupt\<rparr>) = Inl JSONDecodeError
   \<and> save_log self taken (w\<lparr>log_disk := Corrupt\<rparr>) = Inl JSONDecodeError
   \<and> run_reminder_cycle self (w\<lparr>log_disk := Corrupt\<rparr>) env
       = (Raised JSONDecodeError, self, w\<lparr>log_disk := Corrupt\<rparr>, [])"
  by (simp add: load_log_def already_taken_today_def save_log_def run_reminder_cycle_def)

text \<open>C2 as stated fails: on a corrupt file \<open>load_log\<close> raises, on an absent one it
  returns the empty mapping.\<close>

theorem load_log_corrupt_counterexample:
  "load_log (new_year\<lparr>log_disk := Corrupt\<rparr>) \<noteq> load_log (new_year\<lparr>log_disk := Absent\<rparr>)
   \<and> load_log (new_year\<lparr>log_disk := Corrupt\<rparr>) = Inl JSONDecodeError
   \<and> load_log (new_year\<lparr>log_disk := Absent\<rparr>) = Inr (PDict [])"
  by (simp add: load_log_def)

subsection \<open>The wait between reminders\<close>

text \<open>
  C8. The wait after attempt \<open>i\<close> is \<open>wait_time\<close> of the incremented counter \<open>i + 1\<close>; it
  never grows with the attempt index.
\<close>

theorem wait_time_nonincreasing:
  "i \<le> j \<Longrightarrow> wait_time (j + 1) \<le> wait_time (i + 1)"
  by (simp add: wait_time_def)

theorem wait_time_nonincreasing_witness:
  "(2::nat) \<le> 5 \<and> wait_time (5 + 1) \<le> wait_time (2 + 1)
   \<and> wait_time (5 + 1) = 60 \<and> wait_time (2 + 1) = 180"
  using wait_time_nonincreasing [of 2 5] by (simp add: wait_time_def)

subsection \<open>The log store and the completion check\<close>

lemma list_all_snd_map_of:
  "list_all P (map snd kvs) \<Longrightarrow> map_of kvs k = Some v \<Longrightarrow> P v"
  by (auto simp: list_all_iff dest!: map_of_SomeD)

lemma list_all_snd_update:
  "list_all P (map snd kvs) \<Longrightarrow> P v \<Longrightarrow> list_all P (map snd (AList.update k v kvs))"
  by (induction kvs) auto

lemma in_keys_iff: "k \<in> fst ` set kvs \<longleftrightarrow> map_of kvs k \<noteq> None"
  by (simp add: map_of_eq_None_iff)

lemma is_store_cases:
  assumes "is_store v"
  obtains days where "v = PDict days" "distinct (map fst days)" "list_all is_day (map snd days)"
  using assms by (cases v) auto

lemma is_day_cases:
  assumes "is_day v"
  obtains slots where "v = PDict slots" "distinct (map fst slots)" "list_all is_entry (map snd slots)"
  using assms by (cases v) auto

lemma is_entry_cases:
  assumes "is_entry v"
  obtains fs where "v = PDict fs" "distinct (map fst fs)" "map_of fs ''medicines'' = None"
  | fs xs where "v = PDict fs" "distinct (map fst fs)" "map_of fs ''medicines'' = Some (PList xs)"
  using assms by (cases v) (auto split: option.splits pyval.splits)

lemma store_days:
  assumes "store_on_disk w"
  shows "load_log w = Inr (PDict (days_of w))"
    and "distinct (map fst (days_of w))"
    and "list_all is_day (map snd (days_of w))"
  using assms
  by (auto simp: store_on_disk_def days_of_def load_log_def split: file_state.splits elim!: is_store_cases)

lemma store_slots:
  assumes "store_on_disk w"
  shows "map_of (days_of w) d = None \<or> map_of (days_of w) d = Some (PDict (slots_of w d))"
    and "distinct (map fst (slots_of w d))"
    and "list_all is_entry (map snd (slots_of w d))"
proof -
  note st = store_days [OF assms]
  show "map_of (days_of w) d = None \<or> map_of (days_of w) d = Some (PDict (slots_of w d))"
  proof (cases "map_of (days_of w) d")
    case None then show ?thesis by simp
  next
    case (Some v)
    then have "is_day v" using st(3) by (rule list_all_snd_map_of [rotated])
    then show ?thesis using Some by (auto simp: slots_of_def elim!: is_day_cases)
  qed
  show "distinct (map fst (slots_of w d))"
  proof (cases "map_of (days_of w) d")
    case None then show ?thesis by (simp add: slots_of_def)
  next
    case (Some v)
    then have "is_day v" using st(3) by (rule list_all_snd_map_of [rotated])
    then show ?thesis using Some by (auto simp: slots_of_def elim!: is_day_cases)
  qed
  show "list_all is_entry (map snd (slots_of w d))"
  proof (cases "map_of (days_of w) d")
    case None then show ?thesis by (simp add: slots_of_def)
  next
    case (Some v)
    then have "is_day v" using st(3) by (rule list_all_snd_map_of [rotated])
    then show ?thesis using Some by (auto simp: slots_of_def elim!: is_day_cases)
  qed
qed

lemma slots_of_None: "map_of (days_of w) d = None \<Longrightarrow> slots_of w d = []"
  by (simp add: slots_of_def)

lemma taken_is_complete:
  assumes "store_on_disk w" and "medicines self = Some required"
  shows "already_taken_today self w
         = Inr (isComplete w (clock_day w) (reminder_type self) (length required))"
proof -
  note st = store_days [OF assms(1)]
  note sl = store_slots [OF assms(1), of "clock_day w"]
  show ?thesis
  proof (cases "map_of (days_of w) (clock_day w)")
    case None
    then show ?thesis
      by (simp add: already_taken_today_def st(1) get_today_key_def in_keys_iff isComplete_def
          disk_entry_def slots_of_None)
  next
    case (Some v)
    then have day: "map_of (days_of w) (clock_day w) = Some (PDict (slots_of w (clock_day w)))"
      using sl(1) by simp
    show ?thesis
    proof (cases "map_of (slots_of w (clock_day w)) (reminder_type self)")
      case None
      then show ?thesis
        by (simp add: already_taken_today_def st(1) get_today_key_def in_keys_iff isComplete_def
            disk_entry_def day)
    next
      case (Some e)
      then have "is_entry e" using sl(3) by (rule list_all_snd_map_of [rotated])
      then show ?thesis
        using Some assms(2)
        by (auto simp: already_taken_today_def st(1) get_today_key_def in_keys_iff isComplete_def
            disk_entry_def day confirmed_count_def elim!: is_entry_cases)
    qed
  qed
qed

lemma save_log_store:
  assumes "store_on_disk w"
  shows "save_log self taken w =
     Inr (w\<lparr>log_disk := Holds (PDict (AList.update (clock_day w)
            (PDict (AList.update (reminder_type self) (new_entry self taken w)
                      (slots_of w (clock_day w))))
            (days_of w)))\<rparr>)"
proof -
  note st = store_days [OF assms(1)]
  note sl = store_slots [OF assms(1), of "clock_day w"]
  show ?thesis
  proof (cases "map_of (days_of w) (clock_day w)")
    case None
    then show ?thesis
      by (simp add: save_log_def st(1) get_today_key_def in_keys_iff slots_of_None
          AList.update_conv' Let_def)
  next
    case (Some v)
    then have day: "map_of (days_of w) (clock_day w) = Some (PDict (slots_of w (clock_day w)))"
      using sl(1) by simp
    show ?thesis
      by (simp add: save_log_def st(1) get_today_key_def in_keys_iff day Let_def)
  qed
qed


lemma is_entry_new_entry: "is_entry (new_entry self taken w)"
  by (simp add: new_entry_def)

lemma days_of_saved:
  "days_of (saved self taken w) = AList.update (clock_day w)
            (PDict (AList.update (reminder_type self) (new_entry self taken w)
                      (slots_of w (clock_day w)))) (days_of w)"
  by (simp add: saved_def days_of_def load_log_def)

lemma slots_of_saved:
  "slots_of (saved self taken w) d =
     (if d = clock_day w
      then AList.update (reminder_type self) (new_entry self taken w) (slots_of w d)
      else slots_of w d)"
  by (simp add: slots_of_def days_of_saved AList.update_conv')

lemma disk_entry_saved:
  "disk_entry (saved self taken w) d s =
     (if d = clock_day w \<and> s = reminder_type self then Some (new_entry self taken w)
      else disk_entry w d s)"
  by (simp add: disk_entry_def slots_of_saved AList.update_conv')

lemma store_on_disk_saved:
  assumes "store_on_disk w"
  shows "store_on_disk (saved self taken w)"
proof -
  note st = store_days [OF assms(1)]
  note sl = store_slots [OF assms(1), of "clock_day w"]
  have "is_day (PDict (AList.update (reminder_type self) (new_entry self taken w)
                      (slots_of w (clock_day w))))"
    using sl(2,3) by (simp add: AList.distinct_update list_all_snd_update is_entry_new_entry)
  then show ?thesis
    using st(2,3) by (simp add: store_on_disk_def saved_def AList.distinct_update list_all_snd_update)
qed

lemma days_of_clock [simp]:
  "days_of (w\<lparr>clock_day := d\<rparr>) = days_of w" "days_of (w\<lparr>clock_iso := t\<rparr>) = days_of w"
  by (simp_all add: days_of_def load_log_def)

lemma slots_of_clock [simp]:
  "slots_of (w\<lparr>clock_day := d\<rparr>) x = slots_of w x" "slots_of (w\<lparr>clock_iso := t\<rparr>) x = slots_of w x"
  by (simp_all add: slots_of_def)

lemma disk_entry_clock [simp]:
  "disk_entry (w\<lparr>clock_day := d\<rparr>) x s = disk_entry w x s"
  "disk_entry (w\<lparr>clock_iso := t\<rparr>) x s = disk_entry w x s"
  by (simp_all add: disk_entry_def)

lemma store_on_disk_clock [simp]:
  "store_on_disk (w\<lparr>clock_day := d\<rparr>) = store_on_disk w"
  "store_on_disk (w\<lparr>clock_iso := t\<rparr>) = store_on_disk w"
  by (simp_all add: store_on_disk_def)

lemma isComplete_clock [simp]:
  "isComplete (w\<lparr>clock_day := d\<rparr>) x s n = isComplete w x s n"
  by (simp add: isComplete_def)

lemma confirmed_count_new_entry: "confirmed_count (new_entry self taken w) = Some (length taken)"
  by (simp add: confirmed_count_def new_entry_def)

lemma count_list_distinct: "distinct xs \<Longrightarrow> x \<in> set xs \<Longrightarrow> count_list xs x = 1"
  by (induction xs) (auto simp: count_list_0_iff)

text \<open>
  C3. On a LogStore (or with no log file yet), \<open>already_taken_today\<close> is the
  specification's \<open>isComplete\<close> for today and the object's slot. After \<open>save_log\<close> with
  a list of confirmed items the check is true exactly when the list is as long as the
  slot's required list; the checks of every other day are what they were before, so
  that a day without an entry (the next day) is not complete; and without an entry the
  check is false.
\<close>

theorem record_then_complete:
  assumes "store_on_disk w" and "medicines self = Some required"
  shows "already_taken_today self w
           = Inr (isComplete w (clock_day w) (reminder_type self) (length required))
       \<and> (\<exists>w'. save_log self taken w = Inr w' \<and> store_on_disk w'
             \<and> clock_day w' = clock_day w
             \<and> already_taken_today self w' = Inr (length taken = length required)
             \<and> (\<forall>d. d \<noteq> clock_day w \<longrightarrow>
                   already_taken_today self (w'\<lparr>clock_day := d\<rparr>)
                     = already_taken_today self (w\<lparr>clock_day := d\<rparr>))
             \<and> (\<forall>d. d \<noteq> clock_day w \<and> disk_entry w d (reminder_type self) = None \<longrightarrow>
                   already_taken_today self (w'\<lparr>clock_day := d\<rparr>) = Inr False))
       \<and> (disk_entry w (clock_day w) (reminder_type self) = None
             \<longrightarrow> already_taken_today self w = Inr False)"
proof -
  let ?w' = "saved self taken w"
  have s: "save_log self taken w = Inr ?w'"
    using save_log_store [OF assms(1)] by (simp add: saved_def)
  have st': "store_on_disk ?w'" by (rule store_on_disk_saved [OF assms(1)])
  have day: "clock_day ?w' = clock_day w" by (simp add: saved_def)
  have a: "already_taken_today self w
           = Inr (isComplete w (clock_day w) (reminder_type self) (length required))"
    by (rule taken_is_complete [OF assms])
  have b: "already_taken_today self ?w' = Inr (length taken = length required)"
    using taken_is_complete [OF st' assms(2)]
    by (simp add: day isComplete_def disk_entry_saved confirmed_count_new_entry eq_commute)
  have c: "already_taken_today self (?w'\<lparr>clock_day := d\<rparr>)
             = already_taken_today self (w\<lparr>clock_day := d\<rparr>)" if "d \<noteq> clock_day w" for d
  proof -
    have "already_taken_today self (?w'\<lparr>clock_day := d\<rparr>)
            = Inr (isComplete ?w' d (reminder_type self) (length required))"
      using taken_is_complete [of "?w'\<lparr>clock_day := d\<rparr>" self required] st' assms(2) by simp
    moreover have "already_taken_today self (w\<lparr>clock_day := d\<rparr>)
            = Inr (isComplete w d (reminder_type self) (length required))"
      using taken_is_complete [of "w\<lparr>clock_day := d\<rparr>" self required] assms by simp
    ultimately show ?thesis using that by (simp add: isComplete_def disk_entry_saved)
  qed
  have d: "disk_entry w (clock_day w) (reminder_type self) = None
             \<longrightarrow> already_taken_today self w = Inr False"
    using a by (simp add: isComplete_def)
  have n: "already_taken_today self (?w'\<lparr>clock_day := d\<rparr>) = Inr False"
    if "d \<noteq> clock_day w \<and> disk_entry w d (reminder_type self) = None" for d
    using that c [of d] taken_is_complete [of "w\<lparr>clock_day := d\<rparr>" self required] assms
    by (simp add: isComplete_def)
  show ?thesis using a s st' day b c d n by blast
qed


lemma save_log_saved: "store_on_disk w \<Longrightarrow> save_log self taken w = Inr (saved self taken w)"
  using save_log_store [of w self taken] by (simp add: saved_def)

lemma saved_twice:
  "saved self2 t2 ((saved self t1 w)\<lparr>clock_iso := iso2\<rparr>) = saved self2 t2 (w\<lparr>clock_iso := iso2\<rparr>)"
  if "reminder_type self2 = reminder_type self"
proof -
  have sl: "slots_of ((saved self t1 w)\<lparr>clock_iso := iso2\<rparr>) (clock_day w)
        = AList.update (reminder_type self) (new_entry self t1 w) (slots_of w (clock_day w))"
    by (simp add: slots_of_saved)
  have dy: "days_of ((saved self t1 w)\<lparr>clock_iso := iso2\<rparr>)
        = AList.update (clock_day w)
            (PDict (AList.update (reminder_type self) (new_entry self t1 w)
                      (slots_of w (clock_day w)))) (days_of w)"
    by (simp add: days_of_saved)
  have ne: "new_entry self2 t2 ((saved self t1 w)\<lparr>clock_iso := iso2\<rparr>)
        = new_entry self2 t2 (w\<lparr>clock_iso := iso2\<rparr>)"
    by (simp add: new_entry_def)
  have cd: "clock_day ((saved self t1 w)\<lparr>clock_iso := iso2\<rparr>) = clock_day w"
    by (simp add: saved_def)
  show ?thesis
    unfolding saved_def [of self2]
    by (simp only: cd sl dy ne that) (simp add: saved_def)
qed

text \<open>
  C6. On a LogStore, recording a second time for the same day and slot (later the same
  day, possibly at another attempt count) replaces the entry: the store is the one a
  single recording of the second list leaves, the day and slot keys are those after the
  first recording, each held once, and the entries of all other (day, slot) pairs are
  what they were before either call.
\<close>

theorem record_overwrites:
  assumes "store_on_disk w" and "reminder_type self2 = reminder_type self"
  shows "\<exists>w1 w2. save_log self t1 w = Inr w1
          \<and> save_log self2 t2 (w1\<lparr>clock_iso := iso2\<rparr>) = Inr w2
          \<and> save_log self2 t2 (w\<lparr>clock_iso := iso2\<rparr>) = Inr w2
          \<and> disk_entry w1 (clock_day w) (reminder_type self) = Some (new_entry self t1 w)
          \<and> disk_entry w2 (clock_day w) (reminder_type self)
               = Some (new_entry self2 t2 (w\<lparr>clock_iso := iso2\<rparr>))
          \<and> day_keys w2 = day_keys w1
          \<and> slot_keys w2 (clock_day w) = slot_keys w1 (clock_day w)
          \<and> count_list (day_keys w2) (clock_day w) = 1
          \<and> count_list (slot_keys w2 (clock_day w)) (reminder_type self) = 1
          \<and> (\<forall>d s. (d, s) \<noteq> (clock_day w, reminder_type self) \<longrightarrow>
                 disk_entry w1 d s = disk_entry w d s \<and> disk_entry w2 d s = disk_entry w d s)"
proof -
  let ?w1 = "saved self t1 w"
  let ?v = "w\<lparr>clock_iso := iso2\<rparr>"
  let ?w2 = "saved self2 t2 ?v"
  have st1: "store_on_disk ?w1" by (rule store_on_disk_saved [OF assms(1)])
  have stv: "store_on_disk ?v" using assms(1) by simp
  have st2: "store_on_disk ?w2" by (rule store_on_disk_saved [OF stv])
  have s1: "save_log self t1 w = Inr ?w1" by (rule save_log_saved [OF assms(1)])
  have s2: "save_log self2 t2 (?w1\<lparr>clock_iso := iso2\<rparr>) = Inr ?w2"
    using save_log_saved [of "?w1\<lparr>clock_iso := iso2\<rparr>" self2 t2] st1
    by (simp add: saved_twice [OF assms(2)])
  have s3: "save_log self2 t2 ?v = Inr ?w2" by (rule save_log_saved [OF stv])
  have e1: "disk_entry ?w1 (clock_day w) (reminder_type self) = Some (new_entry self t1 w)"
    by (simp add: disk_entry_saved)
  have e2: "disk_entry ?w2 (clock_day w) (reminder_type self) = Some (new_entry self2 t2 ?v)"
    by (simp add: disk_entry_saved assms(2))
  have k1: "day_keys ?w2 = day_keys ?w1"
    by (simp add: day_keys_def days_of_saved AList.update_keys)
  have k2: "slot_keys ?w2 (clock_day w) = slot_keys ?w1 (clock_day w)"
    by (simp add: slot_keys_def slots_of_saved AList.update_keys assms(2))
  have c1: "count_list (day_keys ?w2) (clock_day w) = 1"
  proof (rule count_list_distinct)
    show "distinct (day_keys ?w2)"
      using store_days(2) [OF st2] by (simp add: day_keys_def)
    show "clock_day w \<in> set (day_keys ?w2)"
      by (simp add: day_keys_def days_of_saved AList.dom_update)
  qed
  have c2: "count_list (slot_keys ?w2 (clock_day w)) (reminder_type self) = 1"
  proof (rule count_list_distinct)
    show "distinct (slot_keys ?w2 (clock_day w))"
      using store_slots(2) [OF st2] by (simp add: slot_keys_def)
    show "reminder_type self \<in> set (slot_keys ?w2 (clock_day w))"
      by (simp add: slot_keys_def slots_of_saved AList.dom_update assms(2))
  qed
  have fr: "\<forall>d s. (d, s) \<noteq> (clock_day w, reminder_type self) \<longrightarrow>
                 disk_entry ?w1 d s = disk_entry w d s \<and> disk_entry ?w2 d s = disk_entry w d s"
    by (auto simp: disk_entry_saved assms(2))
  show ?thesis using s1 s2 s3 e1 e2 k1 k2 c1 c2 fr by blast
qed

text \<open>
  C10. When the log holds, for today and the slot, an entry whose field \<open>medicines\<close> is a
  list, the check compares only the length of that list with the number of required
  items, whatever the list contains; an entry without the field counts as an empty
  list, so it is complete only for a slot that requires nothing.
\<close>

theorem completion_counts_length_only:
  assumes "log_disk w = Holds (PDict days)"
    and "map_of days (clock_day w) = Some (PDict slots)"
    and "map_of slots (reminder_type self) = Some (PDict fs)"
    and "medicines self = Some required"
  shows "(map_of fs ''medicines'' = Some (PList xs)
            \<longrightarrow> already_taken_today self w = Inr (length xs = length required))
       \<and> (map_of fs ''medicines'' = None
            \<longrightarrow> already_taken_today self w = Inr (0 = length required))"
  using assms
  by (simp add: already_taken_today_def load_log_def get_today_key_def in_keys_iff)


theorem record_then_complete_witness:
  "store_on_disk new_year
   \<and> medicines (init ''morning'')
        = Some [''Elvanse 20mg'', ''Escitalopram 5mg'', ''Dexamfetamine 5mg'']
   \<and> already_taken_today (init ''morning'') new_year = Inr False
   \<and> (\<exists>w'. save_log (init ''morning'') [''Elvanse 20mg'', ''Escitalopram 5mg'', ''Dexamfetamine 5mg''] new_year = Inr w'
          \<and> already_taken_today (init ''morning'') w' = Inr True
          \<and> already_taken_today (init ''morning'') (w'\<lparr>clock_day := ''2024-01-02''\<rparr>) = Inr False)"
proof -
  let ?ms = "[''Elvanse 20mg'', ''Escitalopram 5mg'', ''Dexamfetamine 5mg'']"
  have h1: "store_on_disk new_year"
    by (simp add: store_on_disk_def new_year_def)
  have h2: "medicines (init ''morning'') = Some ?ms"
    by (simp add: init_def)
  have e: "disk_entry new_year (clock_day new_year) (reminder_type (init ''morning'')) = None"
    by (simp add: disk_entry_def slots_of_def days_of_def load_log_def new_year_def)
  have nx: "already_taken_today (init ''morning'') (new_year\<lparr>clock_day := ''2024-01-02''\<rparr>) = Inr False"
    by (simp add: already_taken_today_def load_log_def new_year_def get_today_key_def)
  have d: "''2024-01-02'' \<noteq> clock_day new_year" by (simp add: new_year_def)
  from record_then_complete [OF h1 h2, of ?ms] e d nx
  have "already_taken_today (init ''morning'') new_year = Inr False
   \<and> (\<exists>w'. save_log (init ''morning'') ?ms new_year = Inr w'
          \<and> already_taken_today (init ''morning'') w' = Inr True
          \<and> already_taken_today (init ''morning'') (w'\<lparr>clock_day := ''2024-01-02''\<rparr>) = Inr False)"
    by (elim conjE exE) (simp)
  with h1 h2 show ?thesis by simp
qed

theorem record_overwrites_witness:
  "store_on_disk sample_world
   \<and> reminder_type ((init ''morning'')\<lparr>reminder_count := 2\<rparr>) = reminder_type (init ''morning'')
   \<and> (\<exists>w1 w2. save_log (init ''morning'') [''a'', ''b'', ''c''] sample_world = Inr w1
          \<and> save_log ((init ''morning'')\<lparr>reminder_count := 2\<rparr>) [''x'', ''y'', ''z'']
               (w1\<lparr>clock_iso := ''2024-01-01T09:00:00''\<rparr>) = Inr w2
          \<and> slot_keys w2 ''2024-01-01'' = [''morning'', ''afternoon'']
          \<and> day_keys w2 = [''2023-12-31'', ''2024-01-01'']
          \<and> disk_entry w2 ''2024-01-01'' ''morning''
              = Some (PDict [(''medicines'', PList [PStr ''x'', PStr ''y'', PStr ''z'']),
                             (''time_taken'', PStr ''2024-01-01T09:00:00''),
                             (''reminder_count'', PInt 2)])
          \<and> disk_entry w2 ''2024-01-01'' ''afternoon''
              = Some (PDict [(''time_taken'', PStr ''2024-01-01T14:00:00'')])
          \<and> disk_entry w2 ''2023-12-31'' ''morning'' = disk_entry sample_world ''2023-12-31'' ''morning'')"
proof -
  let ?s = "init ''morning''"
  let ?s2 = "(init ''morning'')\<lparr>reminder_count := 2\<rparr>"
  have h1: "store_on_disk sample_world"
    by (simp add: store_on_disk_def sample_world_def sample_log_def)
  have h2: "reminder_type ?s2 = reminder_type ?s" by simp
  have cd: "clock_day sample_world = ''2024-01-01''" "reminder_type ?s = ''morning''"
    by (simp_all add: sample_world_def new_year_def init_def)
  from record_overwrites [OF h1 h2, of "[''a'', ''b'', ''c'']" "[''x'', ''y'', ''z'']" "''2024-01-01T09:00:00''"]
  obtain w1 w2 where
    a: "save_log ?s [''a'', ''b'', ''c''] sample_world = Inr w1"
    and b: "save_log ?s2 [''x'', ''y'', ''z''] (w1\<lparr>clock_iso := ''2024-01-01T09:00:00''\<rparr>) = Inr w2"
    and c: "save_log ?s2 [''x'', ''y'', ''z''] (sample_world\<lparr>clock_iso := ''2024-01-01T09:00:00''\<rparr>) = Inr w2"
    and e: "disk_entry w2 (clock_day sample_world) (reminder_type ?s)
               = Some (new_entry ?s2 [''x'', ''y'', ''z''] (sample_world\<lparr>clock_iso := ''2024-01-01T09:00:00''\<rparr>))"
    and f: "\<forall>d s. (d, s) \<noteq> (clock_day sample_world, reminder_type ?s) \<longrightarrow>
                 disk_entry w1 d s = disk_entry sample_world d s \<and> disk_entry w2 d s = disk_entry sample_world d s"
    by blast
  have w2: "w2 = saved ?s2 [''x'', ''y'', ''z''] (sample_world\<lparr>clock_iso := ''2024-01-01T09:00:00''\<rparr>)"
    using c save_log_saved [of "sample_world\<lparr>clock_iso := ''2024-01-01T09:00:00''\<rparr>" ?s2 "[''x'', ''y'', ''z'']"] h1
    by simp
  have k: "slot_keys w2 ''2024-01-01'' = [''morning'', ''afternoon'']"
     "day_keys w2 = [''2023-12-31'', ''2024-01-01'']"
    unfolding w2
    by (simp_all add: slot_keys_def day_keys_def saved_def init_def new_entry_def
         sample_world_def sample_log_def new_year_def slots_of_def days_of_def load_log_def)
  have e': "disk_entry w2 ''2024-01-01'' ''morning''
              = Some (PDict [(''medicines'', PList [PStr ''x'', PStr ''y'', PStr ''z'']),
                             (''time_taken'', PStr ''2024-01-01T09:00:00''),
                             (''reminder_count'', PInt 2)])"
    using e by (simp add: cd new_entry_def)
  have f1: "disk_entry w2 ''2024-01-01'' ''afternoon'' = Some (PDict [(''time_taken'', PStr ''2024-01-01T14:00:00'')])"
    using f [rule_format, of "''2024-01-01''" "''afternoon''"]
    by (simp add: cd disk_entry_def slots_of_def days_of_def load_log_def sample_world_def sample_log_def)
  have f2: "disk_entry w2 ''2023-12-31'' ''morning'' = disk_entry sample_world ''2023-12-31'' ''morning''"
    using f [rule_format, of "''2023-12-31''" "''morning''"] by (simp add: cd)
  show ?thesis using h1 h2 a b k e' f1 f2 by blast
qed

theorem completion_counts_length_only_witness:
  "already_taken_today (init ''morning'') sample_world = Inr True
   \<and> already_taken_today (init ''afternoon'') sample_world = Inr False"
proof -
  have a: "log_disk sample_world = Holds sample_log" by (simp add: sample_world_def)
  have b: "clock_day sample_world = ''2024-01-01''" by (simp add: sample_world_def new_year_def)
  have 1: "already_taken_today (init ''morning'') sample_world = Inr True"
    using completion_counts_length_only [of sample_world _ _ "init ''morning''" _ _ "[PStr ''aspirin'', PStr ''aspirin'', PInt 7]"]
    by (simp add: a b sample_log_def init_def)
  have 2: "already_taken_today (init ''afternoon'') sample_world = Inr False"
    using completion_counts_length_only [of sample_world _ _ "init ''afternoon''"]
    by (simp add: a b sample_log_def init_def)
  show ?thesis using 1 2 by simp
qed

subsection \<open>The confirmation dialog\<close>

lemma length_selected:
  "length (concat (map (\<lambda>i. if P i then [f i] else []) is)) = length (filter P is)"
  by (induction "is") auto

lemma filter_nth_upt: "length (filter (\<lambda>i. xs ! i) [0..<length xs]) = length (filter id xs)"
proof -
  have "filter id xs = filter id (map ((!) xs) [0..<length xs])" by (simp add: map_nth)
  also have "\<dots> = map ((!) xs) (filter (\<lambda>i. xs ! i) [0..<length xs])"
    by (simp add: filter_map comp_def)
  finally show ?thesis by simp
qed

lemma selected_all:
  assumes "length vars = length meds"
    and "length (filter id vars) = length meds"
  shows "concat (map (\<lambda>i. if vars ! i then [meds ! i] else []) [0..<length vars]) = meds"
proof -
  have "length (filter id vars) = length vars" using assms by simp
  then have "filter id vars = vars" by (metis length_filter_less filter_True less_irrefl filter_id_conv nat_neq_iff) 
  then have all: "\<forall>i<length vars. vars ! i"
    by (metis filter_id_conv id_apply nth_mem)
  have "concat (map (\<lambda>i. if vars ! i then [meds ! i] else []) [0..<length vars])
        = concat (map (\<lambda>i. [meds ! i]) [0..<length vars])"
    using all by (intro arg_cong [where f = concat] map_cong) auto
  also have "\<dots> = map ((!) meds) [0..<length meds]"
    using assms(1) by (simp add: concat_map_singleton)
  finally show ?thesis by (simp add: map_nth)
qed

lemma on_taken_partial:
  assumes "medicines self = Some meds"
    and "length (filter id (med_vars g)) < length meds"
  shows "on_taken self g = g\<lparr>shown := shown g @ [(gworld g, WarningBox (length meds))]\<rparr>"
  using assms by (simp add: on_taken_def length_selected filter_nth_upt)

lemma on_taken_shape:
  assumes "medicines self = Some meds" and "length (med_vars g) = length meds"
  shows "(\<exists>e. on_taken self g = g\<lparr>shown := shown g @ [(gworld g, e)]\<rparr>
            \<and> \<not> is_alert e \<and> slept e = None)
       \<or> (\<exists>w'. save_log self meds (gworld g) = Inr w'
            \<and> on_taken self g = g\<lparr>completed := True, destroyed := True, gworld := w',
                                   shown := shown g @ [(w', InfoBox)]\<rparr>)"
proof (cases "length (filter id (med_vars g)) = length meds")
  case True
  then have sel: "concat (map (\<lambda>i. if med_vars g ! i then [meds ! i] else [])
                    [0..<length (med_vars g)]) = meds"
    using assms(2) by (rule selected_all [rotated])
  show ?thesis
  proof (cases "save_log self meds (gworld g)")
    case (Inl e)
    then have "on_taken self g = g\<lparr>shown := shown g @ [(gworld g, CallbackError e)]\<rparr>"
      using assms(1) sel by (simp add: on_taken_def)
    moreover have "\<not> is_alert (CallbackError e) \<and> slept (CallbackError e) = None" by simp
    ultimately show ?thesis by blast
  next
    case (Inr w')
    then show ?thesis using assms(1) sel by (simp add: on_taken_def)
  qed
next
  case False
  then have "on_taken self g = g\<lparr>shown := shown g @ [(gworld g, WarningBox (length meds))]\<rparr>"
    using assms(1) by (simp add: on_taken_def length_selected filter_nth_upt)
  moreover have "\<not> is_alert (WarningBox (length meds)) \<and> slept (WarningBox (length meds)) = None"
    by simp
  ultimately show ?thesis by blast
qed

lemma handle_shape:
  assumes "medicines self = Some meds" and "length (med_vars g) = length meds"
  shows "(length (med_vars (handle self g a)) = length meds
          \<and> completed (handle self g a) = completed g
          \<and> (\<exists>ex. shown (handle self g a) = shown g @ ex
                \<and> (\<forall>x\<in>set ex. \<not> is_alert (snd x) \<and> slept (snd x) = None)))
       \<or> (\<exists>w'. save_log self meds (gworld g) = Inr w'
            \<and> handle self g a = g\<lparr>completed := True, destroyed := True, gworld := w',
                                   shown := shown g @ [(w', InfoBox)]\<rparr>)"
proof (cases a)
  case ClickTaken
  then show ?thesis using on_taken_shape [OF assms] assms(2) by auto
qed (use assms(2) in \<open>auto simp: on_snooze_def\<close>)

lemma mainloop_shape:
  assumes "medicines self = Some meds"
  shows "mainloop self g acts = Some g' \<Longrightarrow> length (med_vars g) = length meds \<Longrightarrow>
         (\<exists>ex. shown g' = shown g @ ex
                \<and> (\<forall>x\<in>set ex. \<not> is_alert (snd x) \<and> slept (snd x) = None))
       \<and> (completed g' \<longrightarrow> completed g \<or> (\<exists>v. save_log self meds v = Inr (gworld g')))"
proof (induction acts arbitrary: g)
  case Nil
  then show ?case by simp
next
  case (Cons a acts)
  from handle_shape [OF assms Cons.prems(2), of a]
  show ?case
  proof (elim disjE conjE exE)
    fix ex
    assume len: "length (med_vars (handle self g a)) = length meds"
      and comp: "completed (handle self g a) = completed g"
      and sh: "shown (handle self g a) = shown g @ ex"
      and ok: "\<forall>x\<in>set ex. \<not> is_alert (snd x) \<and> slept (snd x) = None"
    show ?thesis
    proof (cases "destroyed (handle self g a)")
      case True
      then have "g' = handle self g a" using Cons.prems(1) by simp
      then show ?thesis using comp sh ok by auto
    next
      case False
      then have "mainloop self (handle self g a) acts = Some g'" using Cons.prems(1) by simp
      from Cons.IH [OF this len] obtain ex' where
        "shown g' = shown (handle self g a) @ ex'"
        "\<forall>x\<in>set ex'. \<not> is_alert (snd x) \<and> slept (snd x) = None"
        "completed g' \<longrightarrow> completed (handle self g a) \<or> (\<exists>v. save_log self meds v = Inr (gworld g'))"
        by blast
      then show ?thesis using comp sh ok by auto
    qed
  next
    fix w'
    assume sv: "save_log self meds (gworld g) = Inr w'"
      and h: "handle self g a = g\<lparr>completed := True, destroyed := True, gworld := w',
                                   shown := shown g @ [(w', InfoBox)]\<rparr>"
    then have "g' = handle self g a" using Cons.prems(1) by simp
    then show ?thesis using sv h by auto
  qed
qed

lemma show_gui_shape:
  assumes "show_gui_reminder self w acts = Some (Inr b, w', tr)"
  shows "\<exists>meds c ex. medicines self = Some meds
           \<and> tr = (w, DialogOpened c (reminder_count self + 1)) # ex
           \<and> (\<forall>x\<in>set ex. \<not> is_alert (snd x) \<and> slept (snd x) = None)
           \<and> (b \<longrightarrow> (\<exists>v. save_log self meds v = Inr w'))"
proof -
  from assms obtain title meds where t: "reminder_title self = Some title"
    and m: "medicines self = Some meds"
    by (auto simp: show_gui_reminder_def split: option.splits)
  let ?bg = "if reminder_count self > 3 then Red
                else if reminder_count self > 1 then Orange else Lightblue"
  let ?g0 = "\<lparr> med_vars = replicate (length meds) False, completed = False, destroyed = False,
               gworld = w, shown = [(w, DialogOpened ?bg (reminder_count self + 1))] \<rparr>"
  from assms t m obtain g where ml: "mainloop self ?g0 acts = Some g"
    and r: "b = completed g" "w' = gworld g" "tr = shown g"
    by (auto simp: show_gui_reminder_def Let_def split: option.splits)
  from mainloop_shape [OF m ml] r m show ?thesis by auto
qed

text \<open>
  C5. While fewer boxes are ticked than the slot requires, pressing "Taken All" only
  shows the warning: nothing is written, the dialog is neither completed nor closed, and
  the event loop goes on with the same boxes. The dialog returns \<open>True\<close> only after
  \<open>save_log\<close> has written an entry listing all the required items.
\<close>

theorem partial_confirmation_reprompts:
  assumes "medicines self = Some meds"
  shows "(\<forall>g acts. length (filter id (med_vars g)) < length meds \<and> \<not> destroyed g \<longrightarrow>
            on_taken self g = g\<lparr>shown := shown g @ [(gworld g, WarningBox (length meds))]\<rparr>
          \<and> mainloop self g (ClickTaken # acts)
              = mainloop self (g\<lparr>shown := shown g @ [(gworld g, WarningBox (length meds))]\<rparr>) acts)
       \<and> (\<forall>w acts w' tr. show_gui_reminder self w acts = Some (Inr True, w', tr) \<longrightarrow>
            (\<exists>v. save_log self meds v = Inr w'))"
proof -
  have "\<exists>v. save_log self meds v = Inr w'"
    if "show_gui_reminder self w acts = Some (Inr True, w', tr)" for w acts w' tr
    using show_gui_shape [OF that] assms by auto
  then show ?thesis using assms by (simp add: on_taken_partial)
qed

theorem partial_confirmation_reprompts_witness:
  "medicines (init ''morning'')
     = Some [''Elvanse 20mg'', ''Escitalopram 5mg'', ''Dexamfetamine 5mg'']
   \<and> on_taken (init ''morning'')
        \<lparr> med_vars = [True, True, False], completed = False, destroyed = False,
          gworld = new_year, shown = [] \<rparr>
      = \<lparr> med_vars = [True, True, False], completed = False, destroyed = False,
          gworld = new_year, shown = [(new_year, WarningBox 3)] \<rparr>
   \<and> show_gui_reminder (init ''morning'') new_year [Toggle 0, Toggle 1, ClickTaken, ClickSnooze]
      = Some (Inr False, new_year,
              [(new_year, DialogOpened Lightblue 1), (new_year, WarningBox 3)])"
proof -
  let ?ms = "[''Elvanse 20mg'', ''Escitalopram 5mg'', ''Dexamfetamine 5mg'']"
  let ?g = "\<lparr> med_vars = [True, True, False], completed = False, destroyed = False,
          gworld = new_year, shown = [] \<rparr>"
  have h: "medicines (init ''morning'') = Some ?ms" by (simp add: init_def)
  have p: "length (filter id (med_vars ?g)) < length ?ms \<and> \<not> destroyed ?g" by simp
  have 1: "on_taken (init ''morning'') ?g = ?g\<lparr>shown := shown ?g @ [(gworld ?g, WarningBox (length ?ms))]\<rparr>"
    using partial_confirmation_reprompts [OF h] p by blast
  have 2: "show_gui_reminder (init ''morning'') new_year [Toggle 0, Toggle 1, ClickTaken, ClickSnooze]
      = Some (Inr False, new_year,
              [(new_year, DialogOpened Lightblue 1), (new_year, WarningBox 3)])"
    by (simp add: show_gui_reminder_def init_def on_taken_def on_snooze_def)
  show ?thesis using h 1 2 by simp
qed

subsection \<open>One round of the reminder loop\<close>

lemma already_taken_count [simp]:
  "already_taken_today (self\<lparr>reminder_count := c\<rparr>) w = already_taken_today self w"
  by (simp add: already_taken_today_def Let_def cong: sum.case_cong if_cong option.case_cong)


lemma paplay_times_shape:
  "paplay_times n s r k w = (tr, w') \<Longrightarrow> x \<in> set tr \<Longrightarrow>
   \<not> is_notification (snd x) \<and> \<not> is_dialog (snd x) \<and> slept (snd x) = None"
proof (induction n arbitrary: k w tr w')
  case 0
  then show ?case by simp
next
  case (Suc n)
  obtain tr0 w0 where rec: "paplay_times n s r (k + 2) (during_alarm r (k + 1)) = (tr0, w0)"
    by (cases "paplay_times n s r (k + 2) (during_alarm r (k + 1))")
  with Suc.prems(1) have tr: "tr = (w, Paplay s) # (during_alarm r k, ShortSleep) # tr0"
    by simp
  from Suc.prems(2) tr Suc.IH [OF rec] show ?case by auto
qed

lemma try_sounds_shape:
  "try_sounds r w ss = (tr, w') \<Longrightarrow> x \<in> set tr \<Longrightarrow>
   \<not> is_notification (snd x) \<and> \<not> is_dialog (snd x) \<and> slept (snd x) = None"
  by (induction ss) (auto split: if_splits dest: paplay_times_shape)

lemma try_sounds_sounds: "\<exists>x\<in>set (fst (try_sounds r w ss)). is_sound (snd x)"
  by (induction ss) (auto simp: numeral_3_eq_3 split: prod.splits)

lemma alarm_shape:
  "x \<in> set (fst (play_alarm_sound r w)) \<Longrightarrow>
   \<not> is_notification (snd x) \<and> \<not> is_dialog (snd x) \<and> slept (snd x) = None"
  using try_sounds_shape [of r w sounds "fst (play_alarm_sound r w)" "snd (play_alarm_sound r w)" x]
  by (simp add: play_alarm_sound_def)

lemma alarm_sounds: "\<exists>x\<in>set (fst (play_alarm_sound r w)). is_sound (snd x)"
  by (simp add: play_alarm_sound_def try_sounds_sounds)

lemma alert_events:
  "medicines self = Some ms \<Longrightarrow>
   alert self r w =
     Inr (if reminder_count self = 0 then ([(w, Notification Normal 10000 ms)], after_notify r)
          else if reminder_count self < 3 then
            ((w, Notification Normal 10000 ms) # fst (play_alarm_sound r (after_notify r)),
             snd (play_alarm_sound r (after_notify r)))
          else
            ((w, Notification Critical 30000 ms) # fst (play_alarm_sound r (after_notify r)),
             snd (play_alarm_sound r (after_notify r))))"
  by (simp add: alert_def show_desktop_notification_def split: prod.splits)

lemma alert_undefined: "medicines self = None \<Longrightarrow> alert self r w = Inl AttributeError"
  by (simp add: alert_def show_desktop_notification_def)





lemma loop_alert_error:
  "reminder_count self < max_reminders self \<Longrightarrow> already_taken_today self w = Inr False \<Longrightarrow>
   alert self (env (reminder_count self)) w = Inl e \<Longrightarrow>
   reminder_loop self w env
     = (Raised e, self, w, [(w, Print (ReminderNo (reminder_count self + 1)))])"
  by (subst reminder_loop.simps) simp




lemma loop_snoozed:
  "reminder_count self < max_reminders self \<Longrightarrow> already_taken_today self w = Inr False \<Longrightarrow>
   alert self (env (reminder_count self)) w = Inr (al, w0) \<Longrightarrow>
   show_gui_reminder self w0 (actions (env (reminder_count self))) = Some (Inr False, w1, g) \<Longrightarrow>
   reminder_loop self w env
     = then_run
         ((w, Print (ReminderNo (reminder_count self + 1))) # al @ g @
            [(w1, Print (Waiting (wait_time (reminder_count self + 1) div 60))),
             (w1, Sleep (wait_time (reminder_count self + 1)))])
         (reminder_loop (self\<lparr>reminder_count := reminder_count self + 1\<rparr>)
            (after_wait (env (reminder_count self))) env)"
  by (subst reminder_loop.simps) simp

text \<open>
  C1 (as amended). The notification and the sound of attempt \<open>i\<close> follow the table:
  attempt 0 is a normal notification without sound, attempts 1 and 2 are normal with
  sound, attempts from 3 on are critical with sound; the sound is one call of
  \<open>play_alarm_sound\<close>, which always sounds something (a player run or the bell) once
  the notification call has returned. The wait after a snoozed attempt \<open>i\<close> is chosen
  from the counter after its increment, \<open>wait_time (i + 1)\<close>: 300 s for \<open>i < 2\<close>, 180 s
  for \<open>2 \<le> i < 5\<close>, 60 s for \<open>i \<ge> 5\<close>. The attempts 0, 1, 2, 3 give the urgencies normal,
  normal, normal, critical, the sounds no, yes, yes, yes, and the waits 300, 300, 180,
  180.
\<close>

theorem escalation_as_coded:
  assumes "medicines self = Some ms" and "reminder_count self = i"
  shows "alert self r w =
           Inr (if i = 0 then ([(w, Notification Normal 10000 ms)], after_notify r)
                else if i < 3 then
                  ((w, Notification Normal 10000 ms) # fst (play_alarm_sound r (after_notify r)),
                   snd (play_alarm_sound r (after_notify r)))
                else
                  ((w, Notification Critical 30000 ms) # fst (play_alarm_sound r (after_notify r)),
                   snd (play_alarm_sound r (after_notify r))))
       \<and> (\<exists>x\<in>set (fst (play_alarm_sound r v)). is_sound (snd x))
       \<and> (\<forall>x\<in>set (fst (play_alarm_sound r v)).
             \<not> is_notification (snd x) \<and> \<not> is_dialog (snd x) \<and> slept (snd x) = None)
       \<and> wait_time (i + 1) = (if i < 2 then 300 else if i < 5 then 180 else 60)
       \<and> (i < max_reminders self \<and> already_taken_today self w = Inr False
            \<and> alert self (env i) w = Inr (al, w0)
            \<and> show_gui_reminder self w0 (actions (env i)) = Some (Inr False, w1, g) \<longrightarrow>
          reminder_loop self w env
              = then_run
                  ((w, Print (ReminderNo (i + 1))) # al @ g @
                     [(w1, Print (Waiting (wait_time (i + 1) div 60))),
                      (w1, Sleep (wait_time (i + 1)))])
                  (reminder_loop (self\<lparr>reminder_count := i + 1\<rparr>) (after_wait (env i)) env))
       \<and> map (\<lambda>k. alert (self\<lparr>reminder_count := k\<rparr>) r w) [0, 1, 2, 3]
           = [Inr ([(w, Notification Normal 10000 ms)], after_notify r),
              Inr ((w, Notification Normal 10000 ms) # fst (play_alarm_sound r (after_notify r)),
                   snd (play_alarm_sound r (after_notify r))),
              Inr ((w, Notification Normal 10000 ms) # fst (play_alarm_sound r (after_notify r)),
                   snd (play_alarm_sound r (after_notify r))),
              Inr ((w, Notification Critical 30000 ms) # fst (play_alarm_sound r (after_notify r)),
                   snd (play_alarm_sound r (after_notify r)))]
       \<and> map (\<lambda>k. wait_time (k + 1)) [0, 1, 2, 3] = [300, 300, 180, 180]"
proof -
  have a: "alert self r w =
           Inr (if i = 0 then ([(w, Notification Normal 10000 ms)], after_notify r)
                else if i < 3 then
                  ((w, Notification Normal 10000 ms) # fst (play_alarm_sound r (after_notify r)),
                   snd (play_alarm_sound r (after_notify r)))
                else
                  ((w, Notification Critical 30000 ms) # fst (play_alarm_sound r (after_notify r)),
                   snd (play_alarm_sound r (after_notify r))))"
    using alert_events [OF assms(1), of r w] assms(2) by simp
  have s1: "\<exists>x\<in>set (fst (play_alarm_sound r v)). is_sound (snd x)"
    by (rule alarm_sounds)
  have s2: "\<forall>x\<in>set (fst (play_alarm_sound r v)).
             \<not> is_notification (snd x) \<and> \<not> is_dialog (snd x) \<and> slept (snd x) = None"
    using alarm_shape by blast
  have b: "wait_time (i + 1) = (if i < 2 then 300 else if i < 5 then 180 else 60)"
    by (simp add: wait_time_def)
  have c: "reminder_loop self w env
              = then_run
                  ((w, Print (ReminderNo (i + 1))) # al @ g @
                     [(w1, Print (Waiting (wait_time (i + 1) div 60))),
                      (w1, Sleep (wait_time (i + 1)))])
                  (reminder_loop (self\<lparr>reminder_count := i + 1\<rparr>) (after_wait (env i)) env)"
    if "i < max_reminders self \<and> already_taken_today self w = Inr False
            \<and> alert self (env i) w = Inr (al, w0)
            \<and> show_gui_reminder self w0 (actions (env i)) = Some (Inr False, w1, g)"
    using loop_snoozed [where env = env and self = self and w = w and al = al and ?w0.0 = w0
        and ?w1.0 = w1 and g = g] that assms(2)
    by simp
  have d: "map (\<lambda>k. alert (self\<lparr>reminder_count := k\<rparr>) r w) [0, 1, 2, 3]
           = [Inr ([(w, Notification Normal 10000 ms)], after_notify r),
              Inr ((w, Notification Normal 10000 ms) # fst (play_alarm_sound r (after_notify r)),
                   snd (play_alarm_sound r (after_notify r))),
              Inr ((w, Notification Normal 10000 ms) # fst (play_alarm_sound r (after_notify r)),
                   snd (play_alarm_sound r (after_notify r))),
              Inr ((w, Notification Critical 30000 ms) # fst (play_alarm_sound r (after_notify r)),
                   snd (play_alarm_sound r (after_notify r)))]"
    using assms(1) by (simp add: alert_events)
  have e: "map (\<lambda>k. wait_time (k + 1)) [0, 1, 2, 3] = [300, 300, 180, 180]"
    by (simp add: wait_time_def)
  show ?thesis using a s1 s2 b c d e by blast
qed

theorem escalation_as_coded_witness:
  "medicines ((init ''morning'')\<lparr>reminder_count := 2\<rparr>)
     = Some [''Elvanse 20mg'', ''Escitalopram 5mg'', ''Dexamfetamine 5mg'']
   \<and> reminder_count ((init ''morning'')\<lparr>reminder_count := 2\<rparr>) = 2
   \<and> alert ((init ''morning'')\<lparr>reminder_count := 2\<rparr>) noisy_round new_year
       = Inr ([(new_year, Notification Normal 10000
                 [''Elvanse 20mg'', ''Escitalopram 5mg'', ''Dexamfetamine 5mg'']),
              (new_year, Paplay ''/usr/share/sounds/freedesktop/stereo/complete.oga''),
              (new_year, ShortSleep),
              (new_year, Paplay ''/usr/share/sounds/freedesktop/stereo/complete.oga''),
              (new_year, ShortSleep),
              (new_year, Paplay ''/usr/share/sounds/freedesktop/stereo/complete.oga''),
              (new_year, ShortSleep)], new_year)
   \<and> alert ((init ''morning'')\<lparr>reminder_count := 2\<rparr>) quiet_round new_year
       = Inr ([(new_year, Notification Normal 10000
                 [''Elvanse 20mg'', ''Escitalopram 5mg'', ''Dexamfetamine 5mg'']),
              (new_year, Bell)], new_year)
   \<and> wait_time (2 + 1) = 180"
proof -
  let ?ms = "[''Elvanse 20mg'', ''Escitalopram 5mg'', ''Dexamfetamine 5mg'']"
  let ?self = "(init ''morning'')\<lparr>reminder_count := 2\<rparr>"
  have h1: "medicines ?self = Some ?ms" by (simp add: init_def)
  have h2: "reminder_count ?self = 2" by simp
  have p1: "play_alarm_sound noisy_round new_year
      = ([(new_year, Paplay ''/usr/share/sounds/freedesktop/stereo/complete.oga''),
          (new_year, ShortSleep),
          (new_year, Paplay ''/usr/share/sounds/freedesktop/stereo/complete.oga''),
          (new_year, ShortSleep),
          (new_year, Paplay ''/usr/share/sounds/freedesktop/stereo/complete.oga''),
          (new_year, ShortSleep)], new_year)"
    by (simp add: play_alarm_sound_def sounds_def noisy_round_def quiet_round_def numeral_3_eq_3)
  have p2: "play_alarm_sound quiet_round new_year = ([(new_year, Bell)], new_year)"
    by (simp add: play_alarm_sound_def sounds_def quiet_round_def)
  have n: "after_notify noisy_round = new_year" "after_notify quiet_round = new_year"
    by (simp_all add: noisy_round_def quiet_round_def)
  from escalation_as_coded [OF h1 h2, of noisy_round new_year]
  have a1: "alert ?self noisy_round new_year
       = Inr ((new_year, Notification Normal 10000 ?ms) # fst (play_alarm_sound noisy_round new_year),
              snd (play_alarm_sound noisy_round new_year))"
    by (simp add: n)
  from escalation_as_coded [OF h1 h2, of quiet_round new_year]
  have a2: "alert ?self quiet_round new_year
       = Inr ((new_year, Notification Normal 10000 ?ms) # fst (play_alarm_sound quiet_round new_year),
              snd (play_alarm_sound quiet_round new_year))"
    by (simp add: n)
  have w: "wait_time (2 + 1) = 180" by (simp add: wait_time_def)
  show ?thesis using h1 h2 a1 a2 w by (simp add: p1 p2)
qed

text \<open>The whole cycle of the morning slot when every dialog is snoozed, nothing is
  ever logged and no sound can be played.\<close>

lemma snooze_run:
  "run_reminder_cycle (init ''morning'') new_year always_snooze
   = (Returned, (init ''morning'')\<lparr>reminder_count := 10\<rparr>, new_year,
      map (Pair new_year)
       [Print Starting,
        Print (ReminderNo 1),
        Notification Normal 10000 [''Elvanse 20mg'', ''Escitalopram 5mg'', ''Dexamfetamine 5mg''],
        DialogOpened Lightblue 1, Print (Waiting 5), Sleep 300,
        Print (ReminderNo 2),
        Notification Normal 10000 [''Elvanse 20mg'', ''Escitalopram 5mg'', ''Dexamfetamine 5mg''],
        Bell, DialogOpened Lightblue 2, Print (Waiting 5), Sleep 300,
        Print (ReminderNo 3),
        Notification Normal 10000 [''Elvanse 20mg'', ''Escitalopram 5mg'', ''Dexamfetamine 5mg''],
        Bell, DialogOpened Orange 3, Print (Waiting 3), Sleep 180,
        Print (ReminderNo 4),
        Notification Critical 30000 [''Elvanse 20mg'', ''Escitalopram 5mg'', ''Dexamfetamine 5mg''],
        Bell, DialogOpened Orange 4, Print (Waiting 3), Sleep 180,
        Print (ReminderNo 5),
        Notification Critical 30000 [''Elvanse 20mg'', ''Escitalopram 5mg'', ''Dexamfetamine 5mg''],
        Bell, DialogOpened Red 5, Print (Waiting 3), Sleep 180,
        Print (ReminderNo 6),
        Notification Critical 30000 [''Elvanse 20mg'', ''Escitalopram 5mg'', ''Dexamfetamine 5mg''],
        Bell, DialogOpened Red 6, Print (Waiting 1), Sleep 60,
        Print (ReminderNo 7),
        Notification Critical 30000 [''Elvanse 20mg'', ''Escitalopram 5mg'', ''Dexamfetamine 5mg''],
        Bell, DialogOpened Red 7, Print (Waiting 1), Sleep 60,
        Print (ReminderNo 8),
        Notification Critical 30000 [''Elvanse 20mg'', ''Escitalopram 5mg'', ''Dexamfetamine 5mg''],
        Bell, DialogOpened Red 8, Print (Waiting 1), Sleep 60,
        Print (ReminderNo 9),
        Notification Critical 30000 [''Elvanse 20mg'', ''Escitalopram 5mg'', ''Dexamfetamine 5mg''],
        Bell, DialogOpened Red 9, Print (Waiting 1), Sleep 60,
        Print (ReminderNo 10),
        Notification Critical 30000 [''Elvanse 20mg'', ''Escitalopram 5mg'', ''Dexamfetamine 5mg''],
        Bell, DialogOpened Red 10, Print (Waiting 1), Sleep 60,
        Print MaxReached])"
  by (simp add: run_defs reminder_loop.simps new_year_def always_snooze_def quiet_round_def
      init_def)

text \<open>C1 as stated fails at attempt 2: the wait after it is 180 s, not 300 s.\<close>

theorem escalation_table_counterexample:
  "take 4 (waits_of (run_reminder_cycle (init ''morning'') new_year always_snooze))
     = [300, 300, 180, 180]
   \<and> take 4 (waits_of (run_reminder_cycle (init ''morning'') new_year always_snooze))
     \<noteq> [300, 300, 300, 180]"
  by (simp add: snooze_run read_defs List.map_filter_def)

text \<open>
  C4, on the code: the morning slot, no log file, every one of the ten dialogs snoozed.
  The cycle returns with the counter at the cap after ten dialogs, as the claim says;
  but after the tenth snooze it still announces a wait "before next reminder" and
  sleeps 60 s before it reports that the maximum is reached, where the claim has it
  stop at once.
\<close>

theorem tenth_snooze_still_waits:
  "status_of (run_reminder_cycle (init ''morning'') new_year always_snooze) = Returned
   \<and> reminder_count (self_of (run_reminder_cycle (init ''morning'') new_year always_snooze)) = 10
   \<and> length (filter is_dialog
        (events_of (run_reminder_cycle (init ''morning'') new_year always_snooze))) = 10
   \<and> drop 57 (events_of (run_reminder_cycle (init ''morning'') new_year always_snooze))
     = [DialogOpened Red 10, Print (Waiting 1), Sleep 60, Print MaxReached]"
  by (simp add: snooze_run read_defs)

subsection \<open>Alerts and the completion check\<close>

lemma trace_of_then_run [simp]: "trace_of (then_run tr r) = tr @ trace_of r"
  by (cases r) (simp add: then_run_def trace_of_def)

lemma status_of_then_run [simp]: "status_of (then_run tr r) = status_of r"
  by (cases r) (simp add: then_run_def status_of_def)

lemma self_of_then_run [simp]: "self_of (then_run tr r) = self_of r"
  by (cases r) (simp add: then_run_def self_of_def)

lemma world_of_then_run [simp]: "world_of (then_run tr r) = world_of r"
  by (cases r) (simp add: then_run_def world_of_def)


lemma taken_needs_medicines:
  "already_taken_today self w = Inr True \<Longrightarrow> medicines self \<noteq> None"
  by (auto simp: already_taken_today_def Let_def split: sum.splits if_splits option.splits)










subsection \<open>A slot the constructor does not know\<close>

lemma init_unknown:
  "rt \<noteq> ''morning'' \<Longrightarrow> rt \<noteq> ''afternoon'' \<Longrightarrow>
   medicines (init rt) = None \<and> reminder_title (init rt) = None"
  by (simp add: init_def)

lemma init_fields [simp]:
  "reminder_type (init rt) = rt" "reminder_count (init rt) = 0" "max_reminders (init rt) = 10"
  by (simp_all add: init_def)

lemma untaken_without_medicines:
  "medicines self = None \<Longrightarrow> already_taken_today self w \<noteq> Inr True"
  using taken_needs_medicines by blast

lemma taken_undefined_slot:
  assumes "store_on_disk w" and "medicines self = None"
  shows "already_taken_today self w
         = (if disk_entry w (clock_day w) (reminder_type self) = None then Inr False
            else Inl AttributeError)"
proof -
  note st = store_days [OF assms(1)]
  note sl = store_slots [OF assms(1), of "clock_day w"]
  show ?thesis
  proof (cases "map_of (days_of w) (clock_day w)")
    case None
    then show ?thesis
      by (simp add: already_taken_today_def st(1) get_today_key_def in_keys_iff
          disk_entry_def slots_of_None)
  next
    case (Some v)
    then have day: "map_of (days_of w) (clock_day w) = Some (PDict (slots_of w (clock_day w)))"
      using sl(1) by simp
    show ?thesis
    proof (cases "map_of (slots_of w (clock_day w)) (reminder_type self)")
      case None
      then show ?thesis
        by (simp add: already_taken_today_def st(1) get_today_key_def in_keys_iff
            disk_entry_def day)
    next
      case (Some e)
      then have "is_entry e" using sl(3) by (rule list_all_snd_map_of [rotated])
      then show ?thesis
        using Some assms(2)
        by (auto simp: already_taken_today_def st(1) get_today_key_def in_keys_iff
            disk_entry_def day elim!: is_entry_cases)
    qed
  qed
qed

lemma cycle_undefined_slot:
  assumes "medicines self = None" and "reminder_count self < max_reminders self"
  shows "(already_taken_today self w = Inr False \<and>
          run_reminder_cycle self w env
            = (Raised AttributeError, self, w,
               [(w, Print Starting), (w, Print (ReminderNo (reminder_count self + 1)))]))
       \<or> (\<exists>e. already_taken_today self w = Inl e \<and>
            run_reminder_cycle self w env = (Raised e, self, w, []))"
proof (cases "already_taken_today self w")
  case (Inl e)
  then show ?thesis by (simp add: run_reminder_cycle_def)
next
  case (Inr b)
  with untaken_without_medicines [OF assms(1), of w]
  have f: "already_taken_today self w = Inr False" by (cases b) auto
  from loop_alert_error [where env = env, OF assms(2) f alert_undefined [OF assms(1)]]
  show ?thesis using f by (simp add: run_reminder_cycle_def then_run_def)
qed

text \<open>
  C9 (as amended). For a slot key other than \<open>morning\<close> and \<open>afternoon\<close> the constructor
  defines neither the medicine list nor the title. The cycle then always ends in an
  exception and never delivers an alert. The first completion check raises the
  missing-attribute error only when it gets as far as reading \<open>self.medicines\<close>: on a
  LogStore, exactly when the log already holds an entry for today and that slot key.
  When the check returns false (no log file, no entry), the second check does too, and
  the missing-attribute error is raised while the first notification is put together,
  after "Starting" and "Reminder #1" were printed.
\<close>

theorem unknown_slot_fails:
  assumes "rt \<noteq> ''morning''" and "rt \<noteq> ''afternoon''"
  shows "medicines (init rt) = None \<and> reminder_title (init rt) = None
       \<and> (\<exists>e. status_of (run_reminder_cycle (init rt) w env) = Raised e)
       \<and> (\<forall>x\<in>set (events_of (run_reminder_cycle (init rt) w env)). \<not> is_alert x)
       \<and> (already_taken_today (init rt) w = Inr False \<longrightarrow>
            run_reminder_cycle (init rt) w env
              = (Raised AttributeError, init rt, w,
                 [(w, Print Starting), (w, Print (ReminderNo 1))]))
       \<and> (already_taken_today (init rt) w \<noteq> Inr False \<longrightarrow>
            (\<exists>e. already_taken_today (init rt) w = Inl e
                \<and> run_reminder_cycle (init rt) w env = (Raised e, init rt, w, [])))
       \<and> (store_on_disk w \<longrightarrow>
            already_taken_today (init rt) w
              = (if disk_entry w (clock_day w) rt = None then Inr False else Inl AttributeError))
       \<and> main (prog # rt # rest) w env = run_reminder_cycle (init rt) w env"
proof -
  have u: "medicines (init rt) = None" "reminder_title (init rt) = None"
    using init_unknown [OF assms] by simp_all
  have lt: "reminder_count (init rt) < max_reminders (init rt)" by simp
  from cycle_undefined_slot [OF u(1) lt, of w env]
  have c: "(already_taken_today (init rt) w = Inr False \<and>
          run_reminder_cycle (init rt) w env
            = (Raised AttributeError, init rt, w, [(w, Print Starting), (w, Print (ReminderNo 1))]))
       \<or> (\<exists>e. already_taken_today (init rt) w = Inl e \<and>
            run_reminder_cycle (init rt) w env = (Raised e, init rt, w, []))"
    by simp
  have 1: "\<exists>e. status_of (run_reminder_cycle (init rt) w env) = Raised e"
    using c by (auto simp: status_of_def)
  have 2: "\<forall>x\<in>set (events_of (run_reminder_cycle (init rt) w env)). \<not> is_alert x"
    using c by (auto simp: events_of_def trace_of_def)
  have 3: "already_taken_today (init rt) w = Inr False \<longrightarrow>
            run_reminder_cycle (init rt) w env
              = (Raised AttributeError, init rt, w,
                 [(w, Print Starting), (w, Print (ReminderNo 1))])"
    using c by auto
  have 4: "already_taken_today (init rt) w \<noteq> Inr False \<longrightarrow>
            (\<exists>e. already_taken_today (init rt) w = Inl e
                \<and> run_reminder_cycle (init rt) w env = (Raised e, init rt, w, []))"
    using c by auto
  have 5: "store_on_disk w \<longrightarrow>
            already_taken_today (init rt) w
              = (if disk_entry w (clock_day w) rt = None then Inr False else Inl AttributeError)"
    using taken_undefined_slot [of w "init rt"] u(1) by simp
  have 6: "main (prog # rt # rest) w env = run_reminder_cycle (init rt) w env"
    by (simp add: main_def)
  show ?thesis using u 1 2 3 4 5 6 by blast
qed

theorem unknown_slot_fails_witness:
  "''evening'' \<noteq> ''morning'' \<and> ''evening'' \<noteq> ''afternoon''
   \<and> medicines (init ''evening'') = None \<and> reminder_title (init ''evening'') = None
   \<and> already_taken_today (init ''evening'') new_year = Inr False
   \<and> main [''med_reminder.py'', ''evening''] new_year always_snooze
      = (Raised AttributeError, init ''evening'', new_year,
         [(new_year, Print Starting), (new_year, Print (ReminderNo 1))])"
proof -
  have h: "''evening'' \<noteq> ''morning''" "''evening'' \<noteq> ''afternoon''" by simp_all
  have f: "already_taken_today (init ''evening'') new_year = Inr False"
    by (simp add: already_taken_today_def load_log_def get_today_key_def new_year_def)
  from unknown_slot_fails [OF h, of new_year always_snooze "''med_reminder.py''" "[]"] f
  show ?thesis by simp
qed

text \<open>C9 as stated fails when there is no log file: the first completion check returns
  false, and the error comes from the first notification.\<close>

theorem unknown_slot_first_check_counterexample:
  "already_taken_today (init ''evening'') new_year = Inr False
   \<and> run_reminder_cycle (init ''evening'') new_year always_snooze
      = (Raised AttributeError, init ''evening'', new_year,
         [(new_year, Print Starting), (new_year, Print (ReminderNo 1))])"
  by (simp add: run_defs reminder_loop.simps new_year_def init_def)

end
